theory Spec2Isabelle
  imports Complex_Main
begin

section \<open>Numbers, enumerations and drawing instructions\<close>

text \<open>
  The program computes with JavaScript numbers, which are binary64 floating-point
  numbers. A finite number is modelled by the real it denotes. Coordinates and angles are
  computed with exact real arithmetic: \<open>Math.sin\<close>, \<open>Math.cos\<close>, \<open>Math.tan\<close>, \<open>Math.sqrt\<close>,
  \<open>Math.abs\<close>, \<open>Math.min\<close> and \<open>Math.PI\<close> are \<^term>\<open>sin\<close>, \<^term>\<open>cos\<close>, \<^term>\<open>tan\<close>, \<^term>\<open>sqrt\<close>,
  \<^term>\<open>abs\<close>, \<^term>\<open>min\<close> and \<^term>\<open>pi\<close> on \<^typ>\<open>real\<close>. The loop variable of the two sampling
  loops is different: it accumulates \<open>t += 0.1\<close>, and the rounding of every addition
  decides how many passes a loop makes. There the literal \<open>0.1\<close> is its binary64 value
  and the addition is the binary64 addition \<open>fadd\<close>. The infinities and the negative zero
  are outside this model; \<open>NaN\<close> appears only as the result of parsing text (type
  \<open>number\<close> below).
\<close>

datatype TrigFunction = SIN | COS | TAN

text \<open>The result of \<open>parseFloat\<close>: not-a-number, or a number.\<close>

datatype number = NaN | Num real

text \<open>
  An SVG path string \<open>d\<close> is the sequence of its commands: \<open>`M ${x} ${y}`\<close> is \<open>M x y\<close>,
  \<open>` L ${x} ${y}`\<close> is \<open>L x y\<close>, the empty string is the empty list and \<open>+=\<close> appends.
\<close>

datatype cmd = M real real | L real real

type_synonym path = "cmd list"

subsection \<open>Binary64 addition\<close>

text \<open>
  Rounding to the nearest integer, ties to the even one.
\<close>

definition round_half_even :: "real \<Rightarrow> int" where
  "round_half_even q =
     (let f = \<lfloor>q\<rfloor>; r = q - of_int f
      in if r < 1 / 2 then f else if r > 1 / 2 then f + 1 else if even f then f else f + 1)"

text \<open>
  Rounding a real to binary64, to nearest and ties to even: a number \<open>x\<close> with
  \<open>2 ^ e \<le> \<bar>x\<bar> < 2 ^ (e + 1)\<close> is rounded to a multiple of \<open>2 ^ (e - 52)\<close> (a significand of 53
  bits). The
  range of the exponent is not limited, so there is neither overflow nor a subnormal
  range; the loop variables stay between 0 and 16.
\<close>

definition round64 :: "real \<Rightarrow> real" where
  "round64 x =
     (if x = 0 then 0
      else (let e = \<lfloor>log 2 \<bar>x\<bar>\<rfloor>;
                u = 2 powr (of_int e - 52)
            in sgn x * (of_int (round_half_even (\<bar>x\<bar> / u)) * u)))"

text \<open>The sum \<open>a + b\<close> of two binary64 numbers, as the language computes it.\<close>

definition fadd :: "real \<Rightarrow> real \<Rightarrow> real" where
  "fadd a b = round64 (a + b)"

section \<open>constants.ts\<close>

definition CIRCLE_RADIUS :: real where
  "CIRCLE_RADIUS = 120"

section \<open>WaveGraph\<close>

definition width :: real where
  "width = 400"

definition yScale :: real where
  "yScale = 120"

definition maxTheta :: real where
  "maxTheta = 4 * pi"

definition pixelsPerRadian :: real where
  "pixelsPerRadian = (width - 40) / maxTheta"

text \<open>
  The constant \<open>step = 0.1\<close>: the binary64 number nearest to one tenth,
  \<open>3602879701896397 / 2 ^ 55\<close>, a little above \<open>1/10\<close>.
\<close>

definition step :: real where
  "step = 3602879701896397 / 36028797018963968"

text \<open>
  The value of the loop variable of \<open>for (let t = 0; ...; t += step)\<close> after \<open>k\<close> passes.
\<close>

fun sample :: "nat \<Rightarrow> real" where
  "sample 0 = 0"
| "sample (Suc k) = fadd (sample k) step"

text \<open>
  One pass through the body of the \<open>for\<close> loop of \<open>pathData\<close>, at loop variable \<open>t\<close> and
  with \<open>d\<close> the string built so far. The \<open>TAN\<close> case leaves the body early
  (\<open>continue\<close>) after adding a move when the value is beyond 3 in magnitude.
\<close>

definition wave_body :: "TrigFunction \<Rightarrow> real \<Rightarrow> path \<Rightarrow> path" where
  "wave_body selectedFunc t d =
     (let px = t * pixelsPerRadian in
      case selectedFunc of
        SIN \<Rightarrow>
          (let py = - sin t * yScale in
           if t = 0 then [M px py] else d @ [L px py])
      | COS \<Rightarrow>
          (let py = - cos t * yScale in
           if t = 0 then [M px py] else d @ [L px py])
      | TAN \<Rightarrow>
          (let val = tan t in
           if \<bar>val\<bar> > 3 then d @ [M px (if val > 0 then - 3 * yScale else 3 * yScale)]
           else
             (let py = - val * yScale in
              if t = 0 then [M px py] else d @ [L px py])))"

text \<open>
  The loop \<open>for (let t = ...; t <= drawLimit; t += step)\<close>, entered at \<open>t\<close>. The loop
  variable is a binary64 number and \<open>t += step\<close> rounds; for a limit far beyond the
  values that occur here the rounded sum would stop growing, so the loop is a partial
  function: \<open>None\<close> stands for a loop that does not end.
\<close>

partial_function (option) wave_loop ::
  "TrigFunction \<Rightarrow> real \<Rightarrow> real \<Rightarrow> path \<Rightarrow> path option" where
  "wave_loop selectedFunc drawLimit t d =
     (if t \<le> drawLimit
      then wave_loop selectedFunc drawLimit (fadd t step) (wave_body selectedFunc t d)
      else Some d)"

definition pathData :: "real \<Rightarrow> TrigFunction \<Rightarrow> path option" where
  "pathData angle selectedFunc =
     (let d = [M 0 (- sin 0 * yScale)];
          drawLimit = min angle maxTheta
      in wave_loop selectedFunc drawLimit 0 d)"

text \<open>The marker of the current value: \<open>currentValue\<close>, and \<open>currentY\<close> after the clamp.\<close>

definition currentValue :: "real \<Rightarrow> TrigFunction \<Rightarrow> real" where
  "currentValue angle selectedFunc =
     (if selectedFunc = SIN then sin angle
      else if selectedFunc = COS then cos angle
      else tan angle)"

definition currentY :: "real \<Rightarrow> TrigFunction \<Rightarrow> real" where
  "currentY angle selectedFunc =
     (let y0 = - currentValue angle selectedFunc * yScale in
      if selectedFunc = TAN \<and> \<bar>y0\<bar> > 200 then (if y0 > 0 then 200 else - 200) else y0)"

section \<open>UnitCircle\<close>

text \<open>The point on the circle, in SVG coordinates (\<open>x\<close> and \<open>y\<close> of the component).\<close>

definition UnitCircle_x :: "real \<Rightarrow> real" where
  "UnitCircle_x angle = cos angle * CIRCLE_RADIUS"

definition UnitCircle_y :: "real \<Rightarrow> real" where
  "UnitCircle_y angle = - sin angle * CIRCLE_RADIUS"

definition isTanDefined :: "real \<Rightarrow> bool" where
  "isTanDefined angle = (let cosVal = cos angle in \<bar>cosVal\<bar> > 0.001)"

text \<open>
  \<open>(tanX, tanY)\<close>: both start at 0 and are assigned only under the guard. \<open>tanRendered\<close> is
  the condition under which the JSX draws the tangent construction and its labels.
\<close>

definition tanPoint :: "real \<Rightarrow> TrigFunction \<Rightarrow> real \<times> real" where
  "tanPoint angle selectedFunc =
     (if selectedFunc = TAN \<and> isTanDefined angle
      then (CIRCLE_RADIUS, - tan angle * CIRCLE_RADIUS)
      else (0, 0))"

definition tanRendered :: "real \<Rightarrow> TrigFunction \<Rightarrow> bool" where
  "tanRendered angle selectedFunc = (selectedFunc = TAN \<and> isTanDefined angle)"

subsection \<open>formatTrigValue\<close>

text \<open>
  Strings are byte lists; the two non-ASCII pieces of text are written in UTF-8: the
  square-root sign U+221A, and the label for values beyond 100 in magnitude (U+221E, a
  space, and three CJK characters in parentheses).
\<close>

definition sqrt_sign :: string where
  "sqrt_sign = [CHR 0xE2, CHR 0x88, CHR 0x9A]"

definition undefined_label :: string where
  "undefined_label =
     [CHR 0xE2, CHR 0x88, CHR 0x9E] @ '' ('' @
     [CHR 0xE6, CHR 0x9C, CHR 0xAA, CHR 0xE5, CHR 0xAE, CHR 0x9A, CHR 0xE4, CHR 0xB9, CHR 0x89] @
     '')''"

definition EPSILON :: real where
  "EPSILON = 0.005"

text \<open>
  \<open>Number.prototype.toFixed\<close> belongs to the language, not to the program: it is the
  parameter \<open>toFixed\<close> (number, digits).
\<close>

definition formatTrigValue :: "(real \<Rightarrow> nat \<Rightarrow> string) \<Rightarrow> real \<Rightarrow> string" where
  "formatTrigValue toFixed val =
     (let absv = \<bar>val\<bar>;
          sign = (if val < - EPSILON then ''-'' else [])
      in if absv > 100 then undefined_label
         else if \<bar>absv - 0\<bar> < EPSILON then ''0''
         else if \<bar>absv - 0.5\<bar> < EPSILON then sign @ ''1/2''
         else if \<bar>absv - sqrt 2 / 2\<bar> < EPSILON then sign @ sqrt_sign @ ''2/2''
         else if \<bar>absv - sqrt 3 / 2\<bar> < EPSILON then sign @ sqrt_sign @ ''3/2''
         else if \<bar>absv - 1\<bar> < EPSILON then sign @ ''1''
         else if \<bar>absv - sqrt 3\<bar> < EPSILON then sign @ sqrt_sign @ ''3''
         else if \<bar>absv - sqrt 3 / 3\<bar> < EPSILON then sign @ sqrt_sign @ ''3/3''
         else toFixed val 2)"

text \<open>
  The same function written from its description: a table of the seven special values
  in the order they are tried, the first entry within \<open>0.005\<close> of \<open>\<bar>v\<bar>\<close> wins, and the
  minus sign is put in front exactly when \<open>v < -0.005\<close>.
\<close>

definition symbolic_values :: "(real \<times> string) list" where
  "symbolic_values =
     [(0, ''0''), (1 / 2, ''1/2''), (sqrt 2 / 2, sqrt_sign @ ''2/2''),
      (sqrt 3 / 2, sqrt_sign @ ''3/2''), (1, ''1''), (sqrt 3, sqrt_sign @ ''3''),
      (sqrt 3 / 3, sqrt_sign @ ''3/3'')]"

definition formatTrigValue_spec :: "(real \<Rightarrow> nat \<Rightarrow> string) \<Rightarrow> real \<Rightarrow> string" where
  "formatTrigValue_spec toFixed v =
     (if \<bar>v\<bar> > 100 then undefined_label
      else case find (\<lambda>(c, s). \<bar>\<bar>v\<bar> - c\<bar> < 0.005) symbolic_values of
             Some (c, s) \<Rightarrow> (if v < - 0.005 then ''-'' else []) @ s
           | None \<Rightarrow> toFixed v 2)"

section \<open>PhysicsDemo\<close>

definition amplitude :: real where
  "amplitude = 80"

definition demoHeight :: real where
  "demoHeight = 300"

definition centerY :: real where
  "centerY = demoHeight / 2"

definition graphXStart :: real where
  "graphXStart = 300"

definition graphWidth :: real where
  "graphWidth = 400"

text \<open>The constant \<open>range\<close> of the component.\<close>

definition graph_range :: real where
  "graph_range = 2.5 * pi"

definition pixelsPerRad :: real where
  "pixelsPerRad = graphWidth / graph_range"

text \<open>The constant \<open>resolution = 0.1\<close>, the same binary64 number as \<open>step\<close>.\<close>

definition resolution :: real where
  "resolution = 3602879701896397 / 36028797018963968"

text \<open>
  One pass through the body of the loop of \<open>generateGraphPath\<close>; \<open>None\<close> is the
  \<open>break\<close> taken when the point would fall left of the graph area.
\<close>

definition graph_body ::
  "real \<Rightarrow> (real \<Rightarrow> real) \<Rightarrow> real \<Rightarrow> bool \<Rightarrow> real \<Rightarrow> path \<Rightarrow> path option" where
  "graph_body angle func scale invertY t d =
     (let phase = angle - t;
          val = func phase;
          y = centerY - (val * scale * (if invertY then 1 else - 1));
          x = graphXStart + graphWidth - (t * pixelsPerRad)
      in if x < graphXStart then None
         else if t = 0 then Some [M x y]
         else Some (d @ [L x y]))"

text \<open>
  The loop \<open>for (let t = ...; t <= range; t += resolution)\<close>, entered at \<open>t\<close>; as for the
  wave graph, \<open>None\<close> stands for a loop that does not end.
\<close>

partial_function (option) graph_loop ::
  "real \<Rightarrow> (real \<Rightarrow> real) \<Rightarrow> real \<Rightarrow> bool \<Rightarrow> real \<Rightarrow> path \<Rightarrow> path option" where
  "graph_loop angle func scale invertY t d =
     (if t \<le> graph_range
      then (case graph_body angle func scale invertY t d of
              None \<Rightarrow> Some d
            | Some d' \<Rightarrow> graph_loop angle func scale invertY (fadd t resolution) d')
      else Some d)"

definition generateGraphPath ::
  "real \<Rightarrow> (real \<Rightarrow> real) \<Rightarrow> real \<Rightarrow> bool \<Rightarrow> path option" where
  "generateGraphPath angle func scale invertY = graph_loop angle func scale invertY 0 []"

subsection \<open>The three demonstrations\<close>

definition shmDisplacement :: "real \<Rightarrow> real" where
  "shmDisplacement angle = (let sinVal = sin angle in sinVal * amplitude)"

definition ucmRadius :: real where
  "ucmRadius = 70"

definition ucmCx :: real where
  "ucmCx = 130"

definition ucmCy :: real where
  "ucmCy = centerY"

definition ucmPx :: "real \<Rightarrow> real" where
  "ucmPx angle = ucmCx + ucmRadius * cos angle"

definition ucmPy :: "real \<Rightarrow> real" where
  "ucmPy angle = ucmCy - ucmRadius * sin angle"

text \<open>
  \<open>penMaxTheta\<close> is the constant \<open>maxTheta\<close> of this component (25 degrees); the wave graph
  has a \<open>maxTheta\<close> of its own.
\<close>

definition penMaxTheta :: real where
  "penMaxTheta = 25 * (pi / 180)"

definition penTheta :: "real \<Rightarrow> real" where
  "penTheta angle = penMaxTheta * sin angle"

section \<open>App: the shared state and its handlers\<close>

text \<open>
  The state cells of \<open>App\<close> (\<open>useState\<close>) that the handlers below touch. The physics view
  receives \<open>angle\<close> and \<open>isPlaying\<close> as props, \<open>setAngle\<close> as \<open>onAngleChange\<close> and
  \<open>() => setIsPlaying(!isPlaying)\<close> as \<open>onTogglePlay\<close>; its own three \<open>useRef\<close> cells extend
  the record.
\<close>

record App_state =
  app_angle :: real
  app_isPlaying :: bool
  app_speed :: real
  app_selectedFunc :: TrigFunction

record PhysicsDemo_state = App_state +
  isDraggingRef :: bool
  dragStartXRef :: real
  dragStartAngleRef :: real

text \<open>
  The remainder operator \<open>n % d\<close> on finite numbers with \<open>d\<close> not zero: the quotient is
  truncated towards zero, so the result has the sign of \<open>n\<close>. (For \<open>d = 0\<close> the language
  yields \<open>NaN\<close>; the program only divides by \<open>2 * Math.PI\<close>.)
\<close>

definition js_rem :: "real \<Rightarrow> real \<Rightarrow> real" where
  "js_rem n d = n - d * of_int (if 0 \<le> n / d then \<lfloor>n / d\<rfloor> else \<lceil>n / d\<rceil>)"

text \<open>The updater passed to \<open>setAngle\<close> inside \<open>animate\<close>.\<close>

definition animate_update :: "real \<Rightarrow> real \<Rightarrow> real \<Rightarrow> real" where
  "animate_update speed deltaTime prevAngle =
     (let newAngle = prevAngle + (deltaTime * 0.001 * speed) in
      if newAngle > 100 * pi then js_rem newAngle (2 * pi) else newAngle)"

text \<open>
  \<open>parseFloat\<close> belongs to the language: it is a parameter. The argument \<open>v\<close> is
  \<open>e.target.value\<close>.
\<close>

definition handleDegreeInput ::
  "(string \<Rightarrow> number) \<Rightarrow> string \<Rightarrow> 'a App_state_scheme \<Rightarrow> 'a App_state_scheme" where
  "handleDegreeInput parseFloat v s =
     (case parseFloat v of
        NaN \<Rightarrow> s
      | Num degrees \<Rightarrow> s\<lparr>app_angle := (degrees * pi) / 180, app_isPlaying := False\<rparr>)"

subsection \<open>Dragging a graph of the physics view\<close>

text \<open>The argument \<open>clientX\<close> is \<open>e.clientX\<close>. The cursor style is not modelled.\<close>

definition handleGraphMouseDown :: "real \<Rightarrow> PhysicsDemo_state \<Rightarrow> PhysicsDemo_state" where
  "handleGraphMouseDown clientX s =
     (let s1 = (if app_isPlaying s then s\<lparr>app_isPlaying := \<not> app_isPlaying s\<rparr> else s)
      in s1\<lparr>isDraggingRef := True, dragStartXRef := clientX, dragStartAngleRef := app_angle s\<rparr>)"

definition handleGraphMouseMove :: "real \<Rightarrow> PhysicsDemo_state \<Rightarrow> PhysicsDemo_state" where
  "handleGraphMouseMove clientX s =
     (if \<not> isDraggingRef s then s
      else (let deltaX = clientX - dragStartXRef s
            in s\<lparr>app_angle := dragStartAngleRef s + deltaX / pixelsPerRad\<rparr>))"

definition handleGraphMouseUp :: "PhysicsDemo_state \<Rightarrow> PhysicsDemo_state" where
  "handleGraphMouseUp s = s\<lparr>isDraggingRef := False\<rparr>"

definition handleMouseLeave :: "PhysicsDemo_state \<Rightarrow> PhysicsDemo_state" where
  "handleMouseLeave s = (if isDraggingRef s then s\<lparr>isDraggingRef := False\<rparr> else s)"

text \<open>A run of pointer moves, in the order they arrive.\<close>

definition mouseMoves :: "real list \<Rightarrow> PhysicsDemo_state \<Rightarrow> PhysicsDemo_state" where
  "mouseMoves xs s = foldl (\<lambda>s' clientX. handleGraphMouseMove clientX s') s xs"

section \<open>Verification\<close>

subsection \<open>C2: dragging sets the angle\<close>

lemma mouseMoves_dragging:
  "isDraggingRef s \<Longrightarrow>
   isDraggingRef (mouseMoves xs s) \<and> dragStartXRef (mouseMoves xs s) = dragStartXRef s
   \<and> dragStartAngleRef (mouseMoves xs s) = dragStartAngleRef s"
  by (induction xs arbitrary: s) (simp_all add: mouseMoves_def handleGraphMouseMove_def)

lemma mouseMoves_idle: "\<not> isDraggingRef s \<Longrightarrow> mouseMoves xs s = s"
  by (induction xs) (simp_all add: mouseMoves_def handleGraphMouseMove_def)

text \<open>
  Claim C2. In the physics view a pointer move during a drag sets the shared angle to
  the angle at the start of the drag plus (pointer x minus pointer x at the start)
  divided by \<open>pixelsPerRad = 400 / (2.5\<pi>)\<close>; a pointer move while no drag is active
  changes nothing. The first conjunct is one move in a dragging state, in terms of the
  two cells written at the start of the drag; the second is a move outside a drag; the
  third follows a whole drag: after the press at \<open>x0\<close> in state \<open>s\<close> and any moves
  \<open>xs\<close>, the move to \<open>clientX\<close> leaves the angle of \<open>s\<close> plus \<open>(clientX - x0) / pixelsPerRad\<close>.
  The last two say that once the button is released, or the pointer has left the graph,
  further moves \<open>ys\<close> change nothing.
\<close>

theorem drag_sets_angle:
  "(isDraggingRef sd \<longrightarrow>
      app_angle (handleGraphMouseMove clientX sd)
        = dragStartAngleRef sd + (clientX - dragStartXRef sd) / (400 / (2.5 * pi)))
   \<and> (\<not> isDraggingRef si \<longrightarrow> handleGraphMouseMove clientX si = si)
   \<and> app_angle (mouseMoves (xs @ [clientX]) (handleGraphMouseDown x0 s))
        = app_angle s + (clientX - x0) / (400 / (2.5 * pi))
   \<and> mouseMoves ys (handleGraphMouseUp s) = handleGraphMouseUp s
   \<and> mouseMoves ys (handleMouseLeave s) = handleMouseLeave s"
proof -
  have up: "mouseMoves ys (handleGraphMouseUp s) = handleGraphMouseUp s"
    by (rule mouseMoves_idle) (simp add: handleGraphMouseUp_def)
  have leave: "mouseMoves ys (handleMouseLeave s) = handleMouseLeave s"
    by (rule mouseMoves_idle) (simp add: handleMouseLeave_def)
  let ?s0 = "handleGraphMouseDown x0 s"
  have s0: "isDraggingRef ?s0" "dragStartXRef ?s0 = x0" "dragStartAngleRef ?s0 = app_angle s"
    by (simp_all add: handleGraphMouseDown_def)
  have split: "mouseMoves (xs @ [clientX]) ?s0 = handleGraphMouseMove clientX (mouseMoves xs ?s0)"
    by (simp add: mouseMoves_def)
  from mouseMoves_dragging [OF s0(1), of xs] s0
  have "app_angle (handleGraphMouseMove clientX (mouseMoves xs ?s0))
        = app_angle s + (clientX - x0) / pixelsPerRad"
    by (simp add: handleGraphMouseMove_def)
  then show ?thesis
    by (simp add: up leave split handleGraphMouseMove_def pixelsPerRad_def graphWidth_def
        graph_range_def)
qed

theorem drag_sets_angle_witness:
  "isDraggingRef \<lparr>app_angle = 1, app_isPlaying = False, app_speed = 1, app_selectedFunc = SIN,
       isDraggingRef = True, dragStartXRef = 100, dragStartAngleRef = 1\<rparr>
   \<and> app_angle (handleGraphMouseMove 140
         \<lparr>app_angle = 1, app_isPlaying = False, app_speed = 1, app_selectedFunc = SIN,
          isDraggingRef = True, dragStartXRef = 100, dragStartAngleRef = 1\<rparr>)
       = 1 + (140 - 100) / (400 / (2.5 * pi))
   \<and> \<not> isDraggingRef \<lparr>app_angle = 1, app_isPlaying = True, app_speed = 1,
         app_selectedFunc = SIN, isDraggingRef = False, dragStartXRef = 0, dragStartAngleRef = 0\<rparr>
   \<and> handleGraphMouseMove 140
         \<lparr>app_angle = 1, app_isPlaying = True, app_speed = 1, app_selectedFunc = SIN,
          isDraggingRef = False, dragStartXRef = 0, dragStartAngleRef = 0\<rparr>
       = \<lparr>app_angle = 1, app_isPlaying = True, app_speed = 1, app_selectedFunc = SIN,
          isDraggingRef = False, dragStartXRef = 0, dragStartAngleRef = 0\<rparr>
   \<and> app_angle (mouseMoves ([110, 90] @ [140]) (handleGraphMouseDown 100
         \<lparr>app_angle = 1, app_isPlaying = True, app_speed = 1, app_selectedFunc = SIN,
          isDraggingRef = False, dragStartXRef = 0, dragStartAngleRef = 0\<rparr>))
       = 1 + (140 - 100) / (400 / (2.5 * pi))"
  using drag_sets_angle [of
      "\<lparr>app_angle = 1, app_isPlaying = False, app_speed = 1, app_selectedFunc = SIN,
        isDraggingRef = True, dragStartXRef = 100, dragStartAngleRef = 1\<rparr>"
      140
      "\<lparr>app_angle = 1, app_isPlaying = True, app_speed = 1, app_selectedFunc = SIN,
        isDraggingRef = False, dragStartXRef = 0, dragStartAngleRef = 0\<rparr>"
      "[110, 90]" 100
      "\<lparr>app_angle = 1, app_isPlaying = True, app_speed = 1, app_selectedFunc = SIN,
        isDraggingRef = False, dragStartXRef = 0, dragStartAngleRef = 0\<rparr>" "[]"]
  by simp

subsection \<open>C3: the two views of the visualisation agree\<close>

text \<open>
  Claim C3. Both views show the same angle at the same amplitude scale 120. With \<open>SIN\<close>
  selected the vertical coordinate of the point on the circle, \<open>-sin(angle) * 120\<close>, is the
  height of the marker of the wave graph. With \<open>COS\<close> selected the horizontal coordinate
  of the point, \<open>cos(angle) * 120\<close>, and the marker height \<open>-cos(angle) * 120\<close> both encode
  \<open>cos(angle)\<close>: divided by their scale they give it back, up to the sign of the SVG
  vertical axis.
\<close>

theorem unit_circle_wave_marker_agree:
  "UnitCircle_y a = currentY a SIN \<and> currentY a SIN = - sin a * 120
   \<and> UnitCircle_x a = cos a * 120 \<and> currentY a COS = - cos a * 120
   \<and> UnitCircle_x a / CIRCLE_RADIUS = cos a \<and> - currentY a COS / yScale = cos a
   \<and> CIRCLE_RADIUS = 120 \<and> yScale = 120"
  by (simp add: UnitCircle_y_def UnitCircle_x_def currentY_def currentValue_def
      CIRCLE_RADIUS_def yScale_def)

subsection \<open>C4: the degree input\<close>

text \<open>
  Claim C4. When the text of the degree input parses to \<open>NaN\<close>, the handler leaves the
  state (the angle and the playing flag in particular) as it is; when it parses to a
  number \<open>d\<close>, the handler sets the angle to \<open>d * \<pi> / 180\<close> and stops playback, and
  changes nothing else.
\<close>

theorem handleDegreeInput_ignores_nan:
  "(parseFloat v = NaN \<longrightarrow> handleDegreeInput parseFloat v s = s)
   \<and> (parseFloat w = Num d \<longrightarrow>
         handleDegreeInput parseFloat w s = s\<lparr>app_angle := d * pi / 180, app_isPlaying := False\<rparr>)"
  by (simp add: handleDegreeInput_def)

theorem handleDegreeInput_ignores_nan_witness:
  "(\<lambda>v. if v = ''90'' then Num 90 else NaN) ''abc'' = NaN
   \<and> handleDegreeInput (\<lambda>v. if v = ''90'' then Num 90 else NaN) ''abc''
        \<lparr>app_angle = 1, app_isPlaying = True, app_speed = 1, app_selectedFunc = COS\<rparr>
      = \<lparr>app_angle = 1, app_isPlaying = True, app_speed = 1, app_selectedFunc = COS\<rparr>
   \<and> (\<lambda>v. if v = ''90'' then Num 90 else NaN) ''90'' = Num 90
   \<and> handleDegreeInput (\<lambda>v. if v = ''90'' then Num 90 else NaN) ''90''
        \<lparr>app_angle = 1, app_isPlaying = True, app_speed = 1, app_selectedFunc = COS\<rparr>
      = \<lparr>app_angle = 90 * pi / 180, app_isPlaying = False, app_speed = 1, app_selectedFunc = COS\<rparr>"
  using handleDegreeInput_ignores_nan [of "\<lambda>v. if v = ''90'' then Num 90 else NaN" "''abc''"
      "\<lparr>app_angle = 1, app_isPlaying = True, app_speed = 1, app_selectedFunc = COS\<rparr>" "''90''" 90]
  by simp

subsection \<open>C5: the mechanical analogues are closed forms of the angle\<close>

text \<open>
  Claim C5. Each physics demonstration is a closed-form trigonometric function of the
  shared angle alone: the displacement of the spring-mass system is \<open>80 * sin(angle)\<close>, the
  particle in circular motion is at \<open>(130 + 70 * cos(angle), centerY - 70 * sin(angle))\<close>
  with \<open>centerY = 150\<close>, and the deflection of the pendulum is
  \<open>(25 * \<pi> / 180) * sin(angle)\<close>.
\<close>

theorem physics_closed_forms:
  "shmDisplacement a = 80 * sin a
   \<and> (ucmPx a, ucmPy a) = (130 + 70 * cos a, centerY - 70 * sin a) \<and> centerY = 150
   \<and> penTheta a = (25 * pi / 180) * sin a"
  by (simp add: shmDisplacement_def ucmPx_def ucmPy_def ucmCx_def ucmCy_def ucmRadius_def
      penTheta_def penMaxTheta_def amplitude_def centerY_def demoHeight_def)

subsection \<open>C8: the animation step keeps the angle bounded\<close>

lemma js_rem_pos:
  fixes n d :: real
  assumes "0 \<le> n" "0 < d"
  shows "0 \<le> js_rem n d" and "js_rem n d < d" and "\<exists>k::nat. n = js_rem n d + d * of_nat k"
proof -
  from assms have q: "0 \<le> n / d" by simp
  then have r: "js_rem n d = n - d * of_int \<lfloor>n / d\<rfloor>"
    by (simp add: js_rem_def)
  from assms(2) have dq: "d * (n / d) = n" by simp
  have "of_int \<lfloor>n / d\<rfloor> \<le> n / d" by (rule of_int_floor_le)
  with assms(2) have "d * of_int \<lfloor>n / d\<rfloor> \<le> d * (n / d)"
    by (intro mult_left_mono) simp_all
  with r dq show "0 \<le> js_rem n d" by simp
  have "n / d < of_int \<lfloor>n / d\<rfloor> + 1" by linarith
  with assms(2) have "d * (n / d) < d * (of_int \<lfloor>n / d\<rfloor> + 1)"
    by (intro mult_strict_left_mono) simp_all
  with r dq show "js_rem n d < d" by (simp add: algebra_simps)
  from q have "0 \<le> \<lfloor>n / d\<rfloor>" by simp
  then have "(of_nat (nat \<lfloor>n / d\<rfloor>) :: real) = of_int \<lfloor>n / d\<rfloor>" by simp
  with r have "n = js_rem n d + d * of_nat (nat \<lfloor>n / d\<rfloor>)" by simp
  then show "\<exists>k::nat. n = js_rem n d + d * of_nat k" ..
qed

text \<open>
  Claim C8. For a previous angle in \<open>[0, 100\<pi>]\<close>, a time delta \<open>\<ge> 0\<close> and a speed \<open>> 0\<close>, the
  angle returned by the updater of the animation step is in \<open>[0, 100\<pi>]\<close>. The updater adds
  \<open>deltaTime * 0.001 * speed\<close>; the sum is returned when it does not exceed \<open>100\<pi>\<close>, and
  otherwise it is reduced modulo \<open>2\<pi>\<close>: the result is below \<open>2\<pi>\<close> and differs from the sum
  by a whole number of turns.
\<close>

theorem animate_update_bounded:
  assumes "0 \<le> prevAngle" "prevAngle \<le> 100 * pi" "0 \<le> deltaTime" "0 < speed"
  shows "0 \<le> animate_update speed deltaTime prevAngle
     \<and> animate_update speed deltaTime prevAngle \<le> 100 * pi
     \<and> (prevAngle + deltaTime * 0.001 * speed \<le> 100 * pi \<longrightarrow>
          animate_update speed deltaTime prevAngle = prevAngle + deltaTime * 0.001 * speed)
     \<and> (prevAngle + deltaTime * 0.001 * speed > 100 * pi \<longrightarrow>
          animate_update speed deltaTime prevAngle < 2 * pi
          \<and> (\<exists>k::nat. prevAngle + deltaTime * 0.001 * speed
                = animate_update speed deltaTime prevAngle + 2 * pi * of_nat k))"
proof -
  let ?s = "prevAngle + deltaTime * 0.001 * speed"
  from assms have s0: "0 \<le> ?s" by simp
  have d0: "0 < 2 * pi" by simp
  note rem = js_rem_pos [OF s0 d0]
  show ?thesis
  proof (cases "?s > 100 * pi")
    case True
    then have eq: "animate_update speed deltaTime prevAngle = js_rem ?s (2 * pi)"
      by (simp add: animate_update_def Let_def)
    have "2 * pi \<le> 100 * pi" by simp
    with rem(2) have "js_rem ?s (2 * pi) \<le> 100 * pi" by linarith
    with True eq rem show ?thesis by simp
  next
    case False
    then have "animate_update speed deltaTime prevAngle = ?s"
      by (simp add: animate_update_def Let_def)
    with False s0 show ?thesis by simp
  qed
qed

theorem animate_update_bounded_witness:
  "0 \<le> 100 * pi \<and> 100 * pi \<le> 100 * pi \<and> (0::real) \<le> 1000 \<and> (0::real) < 1
   \<and> 100 * pi + 1000 * 0.001 * 1 > 100 * pi
   \<and> 0 \<le> animate_update 1 1000 (100 * pi) \<and> animate_update 1 1000 (100 * pi) \<le> 100 * pi
   \<and> animate_update 1 1000 (100 * pi) < 2 * pi
   \<and> 0 + 1000 * 0.001 * 1 \<le> 100 * pi
   \<and> animate_update 1 1000 0 = 1"
  using animate_update_bounded [of "100 * pi" 1000 1] animate_update_bounded [of 0 1000 1]
    pi_ge_two
  by simp

subsection \<open>C9: formatting a value\<close>

lemma half: "(0.5::real) = 1 / 2"
  by simp

lemma case_if:
  "(case (if c then Some p else q) of None \<Rightarrow> n | Some (a, b) \<Rightarrow> f a b)
   = (if c then f (fst p) (snd p) else (case q of None \<Rightarrow> n | Some (a, b) \<Rightarrow> f a b))"
  by (simp add: case_prod_beta)

text \<open>
  Claim C9. \<open>formatTrigValue\<close> returns the label for an undefined value when \<open>\<bar>v\<bar> > 100\<close>;
  otherwise, when \<open>\<bar>v\<bar>\<close> is within \<open>0.005\<close> (strictly) of 0, 1/2, \<open>\<surd>2/2\<close>, \<open>\<surd>3/2\<close>, 1, \<open>\<surd>3\<close> or
  \<open>\<surd>3/3\<close>, tried in that order, the text of that value, with a minus sign in front
  exactly when \<open>v < -0.005\<close>; otherwise \<open>v\<close> fixed to two decimals. This is the function
  \<open>formatTrigValue_spec\<close>, and the code computes it, whatever \<open>toFixed\<close> is.
\<close>

theorem formatTrigValue_meets_spec:
  "formatTrigValue toFixed v = formatTrigValue_spec toFixed v"
proof -
  have zero: "\<bar>\<bar>v\<bar> - 0\<bar> < 5 / 10 ^ 3 \<Longrightarrow> (if v < - (5 / 10 ^ 3) then ''-'' else []) = []"
    by simp
  show ?thesis
    unfolding formatTrigValue_def formatTrigValue_spec_def symbolic_values_def EPSILON_def
      Let_def find.simps prod.case half
    apply (simp only: case_if option.case fst_conv snd_conv)
    apply (rule if_cong [OF refl refl])
    apply (rule if_cong [OF refl _ refl])
    apply (simp only: zero append_Nil)
    done
qed

subsection \<open>Binary64 rounding and the loop variable\<close>

text \<open>
  Rounding moves a number between 0 and 16 by at most half a unit in the last place,
  \<open>2 ^ -50\<close>; and for \<open>2 ^ m \<le> 16 * x < 2 ^ (m + 1)\<close> the rounded value is computed from the
  integer nearest to \<open>x * 2 ^ 56 / 2 ^ m\<close>.
\<close>

lemma round_half_even_error: "\<bar>of_int (round_half_even q) - q\<bar> \<le> 1 / 2"
proof -
  have "of_int \<lfloor>q\<rfloor> \<le> q" "q < of_int \<lfloor>q\<rfloor> + 1" by linarith+
  then show ?thesis
    by (auto simp: round_half_even_def Let_def)
qed

lemma two_powr_shift: "2 powr (of_int (int m - 4) - 52) = (2::real) ^ m / 2 ^ 56"
proof -
  have "(2::real) powr (of_int (int m - 4) - 52) = 2 powr (real m - real 56)"
    by simp
  also have "\<dots> = 2 powr real m / 2 powr real 56"
    by (rule powr_diff)
  also have "\<dots> = 2 ^ m / 2 ^ 56"
    by (simp only: powr_realpow [of 2, simplified])
  finally show ?thesis .
qed

lemma two_powr_int: "2 powr (of_int (int m - 4)) = (2::real) ^ m / 16"
proof -
  have "(2::real) powr (of_int (int m - 4)) = 2 powr (real m - real 4)"
    by simp
  also have "\<dots> = 2 powr real m / 2 powr real 4"
    by (rule powr_diff)
  also have "\<dots> = 2 ^ m / 2 ^ 4"
    by (simp only: powr_realpow [of 2, simplified])
  finally show ?thesis by simp
qed

lemma round64_eval:
  assumes "2 ^ m \<le> 16 * x" and "16 * x < 2 * 2 ^ m"
  shows "round64 x = of_int (round_half_even (x * 2 ^ 56 / 2 ^ m)) * 2 ^ m / 2 ^ 56"
proof -
  have pos: "0 < (2::real) ^ m" by simp
  with assms(1) have x: "0 < x" by linarith
  have "2 powr (of_int (int m - 4)) \<le> x"
  proof -
    have "(2::real) ^ m / 16 \<le> x" using assms(1) by simp
    then show ?thesis by (simp only: two_powr_int)
  qed
  moreover have "x < 2 powr (of_int (int m - 4 + 1))"
  proof -
    have "(2::real) powr (of_int (int m - 4 + 1)) = 2 powr (of_int (int (Suc m) - 4))"
      by simp
    also have "\<dots> = 2 ^ Suc m / 16" by (rule two_powr_int)
    finally have "(2::real) powr (of_int (int m - 4 + 1)) = 2 ^ Suc m / 16" .
    moreover have "x < 2 ^ Suc m / 16" using assms(2) by simp
    ultimately show ?thesis by (simp only:)
  qed
  ultimately have e: "\<lfloor>log 2 x\<rfloor> = int m - 4"
    using x by (simp add: floor_log_eq_powr_iff)
  from x have "round64 x
      = of_int (round_half_even (x / 2 powr (of_int (int m - 4) - 52)))
        * 2 powr (of_int (int m - 4) - 52)"
    unfolding round64_def Let_def by (simp only: abs_of_pos e) simp
  then have "round64 x = of_int (round_half_even (x / (2 ^ m / 2 ^ 56))) * (2 ^ m / 2 ^ 56)"
    by (simp only: two_powr_shift)
  then show ?thesis by simp
qed

lemma round64_error:
  assumes "0 < x" and "x < 16"
  shows "\<bar>round64 x - x\<bar> \<le> 1 / 2 ^ 50"
proof -
  define e where "e = \<lfloor>log 2 x\<rfloor>"
  define u :: real where "u = 2 powr (of_int e - 52)"
  have u0: "0 < u" by (simp add: u_def)
  have "log 2 x < 4"
  proof -
    have "log 2 x < log 2 16" using assms by simp
    also have "log 2 16 = log 2 (2 powr 4)" by simp
    also have "\<dots> = 4" by (simp only: log_powr_cancel)
    finally show ?thesis .
  qed
  then have "e < 4" unfolding e_def by (simp add: floor_less_iff)
  then have "of_int e - 52 \<le> (- 49 :: real)" by simp
  then have "u \<le> 2 powr (- 49)" unfolding u_def by (simp only: powr_le_cancel_iff) 
  also have "(2::real) powr (- 49) = 1 / 2 ^ 49"
    by (simp add: powr_minus powr_numeral inverse_eq_divide)
  finally have u49: "u \<le> 1 / 2 ^ 49" .
  from assms(1) have r: "round64 x = of_int (round_half_even (x / u)) * u"
    by (simp add: round64_def Let_def e_def u_def)
  have "round64 x - x = (of_int (round_half_even (x / u)) - x / u) * u"
    using u0 by (simp add: r algebra_simps)
  then have "\<bar>round64 x - x\<bar> = \<bar>of_int (round_half_even (x / u)) - x / u\<bar> * u"
    using u0 by (simp add: abs_mult)
  also have "\<dots> \<le> (1 / 2) * u"
    using u0 round_half_even_error [of "x / u"] by (intro mult_right_mono) simp_all
  also have "\<dots> \<le> (1 / 2) * (1 / 2 ^ 49)"
    using u49 by simp
  also have "\<dots> = 1 / 2 ^ 50" by simp
  finally show ?thesis .
qed


text \<open>
  The loop variable after \<open>k\<close> passes stays within \<open>k * 2 ^ -50\<close> of \<open>k * step\<close> for the first
  150 passes, so it grows strictly and stays within \<open>10 ^ -12\<close> of \<open>k / 10\<close> for the first
  126.
\<close>

lemma step_bounds: "1 / 10 < step" "step - 1 / 10 \<le> 1 / 10 ^ 17" "1 / 2 ^ 50 < step"
  by (simp_all add: step_def)

lemma sample_error:
  "k \<le> 150 \<Longrightarrow> \<bar>sample k - real k * step\<bar> \<le> real k / 2 ^ 50"
proof (induction k)
  case 0
  show ?case by simp
next
  case (Suc k)
  then have IH: "\<bar>sample k - real k * step\<bar> \<le> real k / 2 ^ 50" and k: "k < 150"
    by simp_all
  from k have rk: "real k \<le> 149" by simp
  have s1: "step < 101 / 1000" "1 / 2 ^ 50 < (1::real) / 1000" "0 < step"
    by (simp_all add: step_def)
  from IH have lo: "real k * step - real k / 2 ^ 50 \<le> sample k"
    and hi: "sample k \<le> real k * step + real k / 2 ^ 50"
    by linarith+
  have "real k * (step - 1 / 2 ^ 50) \<ge> 0"
    using step_bounds(3) by (intro mult_nonneg_nonneg) simp_all
  then have "0 \<le> real k * step - real k / 2 ^ 50"
    by (simp add: algebra_simps)
  with lo have nonneg: "0 \<le> sample k" by linarith
  have "real k * step \<le> 149 * step" using rk s1(3) by (intro mult_right_mono) simp_all
  moreover have "real k / 2 ^ 50 \<le> 149 / 2 ^ 50" using rk by (intro divide_right_mono) simp_all
  ultimately have "sample k \<le> 149 * step + 149 / 2 ^ 50" using hi by linarith
  also have "\<dots> < 15.9 - step" by (simp add: step_def)
  finally have below: "sample k + step < 16" by simp
  from nonneg s1(3) have above: "0 < sample k + step" by linarith
  from round64_error [OF above below]
  have "\<bar>sample (Suc k) - (sample k + step)\<bar> \<le> 1 / 2 ^ 50"
    by (simp add: fadd_def)
  with IH have "\<bar>sample (Suc k) - (real k * step + step)\<bar> \<le> real k / 2 ^ 50 + 1 / 2 ^ 50"
    by linarith
  then show ?case
    by (simp add: algebra_simps add_divide_distrib)
qed

lemma sample_step:
  assumes "k < 150"
  shows "sample k < sample (Suc k)" and "0 \<le> sample k"
proof -
  from assms have k: "k \<le> 150" "Suc k \<le> 150" by simp_all
  have e: "real (Suc k) * step = real k * step + step"
    by (simp add: algebra_simps)
  from sample_error [OF k(2)]
  have "\<bar>sample (Suc k) - (real k * step + step)\<bar> \<le> real (Suc k) / 2 ^ 50"
    by (simp only: e)
  with sample_error [OF k(1)]
  have "sample (Suc k) - sample k \<ge> step - (real k / 2 ^ 50 + real (Suc k) / 2 ^ 50)"
    by linarith
  moreover have "real k / 2 ^ 50 + real (Suc k) / 2 ^ 50 \<le> 301 / 2 ^ 50"
    using assms by (simp add: add_divide_distrib [symmetric])
  moreover have "(301::real) / 2 ^ 50 < step" by (simp add: step_def)
  ultimately show "sample k < sample (Suc k)" by linarith
  have "real k * (step - 1 / 2 ^ 50) \<ge> 0"
    using step_bounds(3) by (intro mult_nonneg_nonneg) simp_all
  then have "0 \<le> real k * step - real k / 2 ^ 50"
    by (simp add: algebra_simps)
  with sample_error [OF k(1)] show "0 \<le> sample k" by linarith
qed

lemma sample_mono: "j \<le> k \<Longrightarrow> k \<le> 150 \<Longrightarrow> sample j \<le> sample k"
proof (induction k)
  case 0
  then show ?case by simp
next
  case (Suc k)
  show ?case
  proof (cases "j = Suc k")
    case True
    then show ?thesis by simp
  next
    case False
    with Suc.prems have "j \<le> k" "k < 150" by simp_all
    with Suc.IH sample_step(1) [of k] show ?thesis by simp
  qed
qed

lemma sample_strict_mono: "j < k \<Longrightarrow> k \<le> 150 \<Longrightarrow> sample j < sample k"
proof -
  assume "j < k" "k \<le> 150"
  then have "Suc j \<le> k" "j < 150" by simp_all
  from sample_step(1) [OF this(2)] sample_mono [OF this(1) \<open>k \<le> 150\<close>]
  show ?thesis by simp
qed

lemma sample_pos: "0 < k \<Longrightarrow> k \<le> 150 \<Longrightarrow> 0 < sample k"
  using sample_strict_mono [of 0 k] by simp

lemma sample_near_tenth:
  assumes "k \<le> 126"
  shows "\<bar>sample k - real k / 10\<bar> \<le> 1 / 10 ^ 12"
proof -
  from assms have k: "k \<le> 150" "real k \<le> 126" by simp_all
  have d: "real k * step - real k / 10 = real k * (step - 1 / 10)"
    by (simp add: algebra_simps)
  have "0 \<le> real k * (step - 1 / 10)"
    using step_bounds(1) by (intro mult_nonneg_nonneg) simp_all
  then have "\<bar>real k * step - real k / 10\<bar> = real k * (step - 1 / 10)"
    by (simp only: d abs_of_nonneg)
  also have "\<dots> \<le> 126 * (1 / 10 ^ 17)"
    using k(2) step_bounds(1,2) by (intro mult_mono) simp_all
  finally have a: "\<bar>real k * step - real k / 10\<bar> \<le> 126 / 10 ^ 17" by simp
  have "real k / 2 ^ 50 \<le> 126 / 2 ^ 50" using k(2) by (intro divide_right_mono) simp_all
  with sample_error [OF k(1)] have b: "\<bar>sample k - real k * step\<bar> \<le> 126 / 2 ^ 50" by linarith
  have "(126::real) / 10 ^ 17 + 126 / 2 ^ 50 \<le> 1 / 10 ^ 12" by simp
  with a b show ?thesis by linarith
qed

text \<open>
  The first twenty values of the loop variable, exactly. The last is
  \<open>2.0000000000000004\<close>: it exceeds 2.
\<close>

declare sample.simps [simp del]

lemma sample_1: "sample (Suc 0) = 3602879701896397 / 36028797018963968"
proof -
  have "sample (Suc 0) = fadd (sample 0) step" by (rule sample.simps)
  also have "\<dots> = 3602879701896397 / 36028797018963968"
    by (simp add: sample.simps(1) fadd_def step_def round64_eval [where m = 0] round_half_even_def)
  finally show ?thesis .
qed

lemma sample_2: "sample 2 = 3602879701896397 / 18014398509481984"
proof -
  have "sample 2 = sample (Suc 1)" by (simp only: Suc_1)
  also have "\<dots> = fadd (sample 1) step" by (rule sample.simps)
  also have "\<dots> = 3602879701896397 / 18014398509481984"
    by (simp add: sample_1 fadd_def step_def round64_eval [where m = 1] round_half_even_def)
  finally show ?thesis .
qed

lemma sample_3: "sample 3 = 1351079888211149 / 4503599627370496"
proof -
  have "sample 3 = sample (Suc 2)" by simp
  also have "\<dots> = fadd (sample 2) step" by (rule sample.simps)
  also have "\<dots> = 1351079888211149 / 4503599627370496"
    by (simp add: sample_2 fadd_def step_def round64_eval [where m = 2] round_half_even_def)
  finally show ?thesis .
qed

lemma sample_4: "sample 4 = 3602879701896397 / 9007199254740992"
proof -
  have "sample 4 = sample (Suc 3)" by simp
  also have "\<dots> = fadd (sample 3) step" by (rule sample.simps)
  also have "\<dots> = 3602879701896397 / 9007199254740992"
    by (simp add: sample_3 fadd_def step_def round64_eval [where m = 2] round_half_even_def)
  finally show ?thesis .
qed

lemma sample_5: "sample 5 = 1 / 2"
proof -
  have "sample 5 = sample (Suc 4)" by simp
  also have "\<dots> = fadd (sample 4) step" by (rule sample.simps)
  also have "\<dots> = 1 / 2"
    by (simp add: sample_4 fadd_def step_def round64_eval [where m = 3] round_half_even_def)
  finally show ?thesis .
qed

lemma sample_6: "sample 6 = 5404319552844595 / 9007199254740992"
proof -
  have "sample 6 = sample (Suc 5)" by simp
  also have "\<dots> = fadd (sample 5) step" by (rule sample.simps)
  also have "\<dots> = 5404319552844595 / 9007199254740992"
    by (simp add: sample_5 fadd_def step_def round64_eval [where m = 3] round_half_even_def)
  finally show ?thesis .
qed

lemma sample_7: "sample 7 = 3152519739159347 / 4503599627370496"
proof -
  have "sample 7 = sample (Suc 6)" by simp
  also have "\<dots> = fadd (sample 6) step" by (rule sample.simps)
  also have "\<dots> = 3152519739159347 / 4503599627370496"
    by (simp add: sample_6 fadd_def step_def round64_eval [where m = 3] round_half_even_def)
  finally show ?thesis .
qed

lemma sample_8: "sample 8 = 7205759403792793 / 9007199254740992"
proof -
  have "sample 8 = sample (Suc 7)" by simp
  also have "\<dots> = fadd (sample 7) step" by (rule sample.simps)
  also have "\<dots> = 7205759403792793 / 9007199254740992"
    by (simp add: sample_7 fadd_def step_def round64_eval [where m = 3] round_half_even_def)
  finally show ?thesis .
qed

lemma sample_9: "sample 9 = 2026619832316723 / 2251799813685248"
proof -
  have "sample 9 = sample (Suc 8)" by simp
  also have "\<dots> = fadd (sample 8) step" by (rule sample.simps)
  also have "\<dots> = 2026619832316723 / 2251799813685248"
    by (simp add: sample_8 fadd_def step_def round64_eval [where m = 3] round_half_even_def)
  finally show ?thesis .
qed

lemma sample_10: "sample 10 = 9007199254740991 / 9007199254740992"
proof -
  have "sample 10 = sample (Suc 9)" by simp
  also have "\<dots> = fadd (sample 9) step" by (rule sample.simps)
  also have "\<dots> = 9007199254740991 / 9007199254740992"
    by (simp add: sample_9 fadd_def step_def round64_eval [where m = 3] round_half_even_def)
  finally show ?thesis .
qed

lemma sample_11: "sample 11 = 4953959590107545 / 4503599627370496"
proof -
  have "sample 11 = sample (Suc 10)" by simp
  also have "\<dots> = fadd (sample 10) step" by (rule sample.simps)
  also have "\<dots> = 4953959590107545 / 4503599627370496"
    by (simp add: sample_10 fadd_def step_def round64_eval [where m = 4] round_half_even_def)
  finally show ?thesis .
qed

lemma sample_12: "sample 12 = 5404319552844595 / 4503599627370496"
proof -
  have "sample 12 = sample (Suc 11)" by simp
  also have "\<dots> = fadd (sample 11) step" by (rule sample.simps)
  also have "\<dots> = 5404319552844595 / 4503599627370496"
    by (simp add: sample_11 fadd_def step_def round64_eval [where m = 4] round_half_even_def)
  finally show ?thesis .
qed

lemma sample_13: "sample 13 = 5854679515581645 / 4503599627370496"
proof -
  have "sample 13 = sample (Suc 12)" by simp
  also have "\<dots> = fadd (sample 12) step" by (rule sample.simps)
  also have "\<dots> = 5854679515581645 / 4503599627370496"
    by (simp add: sample_12 fadd_def step_def round64_eval [where m = 4] round_half_even_def)
  finally show ?thesis .
qed

lemma sample_14: "sample 14 = 6305039478318695 / 4503599627370496"
proof -
  have "sample 14 = sample (Suc 13)" by simp
  also have "\<dots> = fadd (sample 13) step" by (rule sample.simps)
  also have "\<dots> = 6305039478318695 / 4503599627370496"
    by (simp add: sample_13 fadd_def step_def round64_eval [where m = 4] round_half_even_def)
  finally show ?thesis .
qed

lemma sample_15: "sample 15 = 6755399441055745 / 4503599627370496"
proof -
  have "sample 15 = sample (Suc 14)" by simp
  also have "\<dots> = fadd (sample 14) step" by (rule sample.simps)
  also have "\<dots> = 6755399441055745 / 4503599627370496"
    by (simp add: sample_14 fadd_def step_def round64_eval [where m = 4] round_half_even_def)
  finally show ?thesis .
qed

lemma sample_16: "sample 16 = 7205759403792795 / 4503599627370496"
proof -
  have "sample 16 = sample (Suc 15)" by simp
  also have "\<dots> = fadd (sample 15) step" by (rule sample.simps)
  also have "\<dots> = 7205759403792795 / 4503599627370496"
    by (simp add: sample_15 fadd_def step_def round64_eval [where m = 4] round_half_even_def)
  finally show ?thesis .
qed

lemma sample_17: "sample 17 = 7656119366529845 / 4503599627370496"
proof -
  have "sample 17 = sample (Suc 16)" by simp
  also have "\<dots> = fadd (sample 16) step" by (rule sample.simps)
  also have "\<dots> = 7656119366529845 / 4503599627370496"
    by (simp add: sample_16 fadd_def step_def round64_eval [where m = 4] round_half_even_def)
  finally show ?thesis .
qed

lemma sample_18: "sample 18 = 8106479329266895 / 4503599627370496"
proof -
  have "sample 18 = sample (Suc 17)" by simp
  also have "\<dots> = fadd (sample 17) step" by (rule sample.simps)
  also have "\<dots> = 8106479329266895 / 4503599627370496"
    by (simp add: sample_17 fadd_def step_def round64_eval [where m = 4] round_half_even_def)
  finally show ?thesis .
qed

lemma sample_19: "sample 19 = 8556839292003945 / 4503599627370496"
proof -
  have "sample 19 = sample (Suc 18)" by simp
  also have "\<dots> = fadd (sample 18) step" by (rule sample.simps)
  also have "\<dots> = 8556839292003945 / 4503599627370496"
    by (simp add: sample_18 fadd_def step_def round64_eval [where m = 4] round_half_even_def)
  finally show ?thesis .
qed

lemma sample_20: "sample 20 = 4503599627370497 / 2251799813685248"
proof -
  have "sample 20 = sample (Suc 19)" by simp
  also have "\<dots> = fadd (sample 19) step" by (rule sample.simps)
  also have "\<dots> = 4503599627370497 / 2251799813685248"
    by (simp add: sample_19 fadd_def step_def round64_eval [where m = 5] round_half_even_def)
  finally show ?thesis .
qed

text \<open>
  An upper bound of \<open>\<pi>\<close> from the Maclaurin expansion of the cosine at \<open>1.574\<close>; with it the
  126th value of the loop variable exceeds \<open>4\<pi>\<close> and the 79th exceeds \<open>2.5\<pi>\<close>.
\<close>

lemma cos_sum10:
  "(\<Sum>m<10. cos_coeff m * x ^ m) = 1 - x^2 / 2 + x^4 / 24 - x^6 / 720 + x^8 / 40320" for x :: real
proof -
  have "{..<10::nat} = {0, 1, 2, 3, 4, 5, 6, 7, 8, 9}" by auto
  then show ?thesis
    by (simp add: cos_coeff_def fact_numeral)
qed

lemma cos_1574_neg: "cos (787 / 500 :: real) < 0"
proof -
  from Maclaurin_cos_expansion2 [of "787 / 500" 10]
  obtain t where t: "cos (787 / 500 :: real) = (\<Sum>m<10. cos_coeff m * (787 / 500) ^ m)
      + (cos (t + 1 / 2 * real 10 * pi) / fact 10) * (787 / 500) ^ 10"
    by auto
  have "cos (t + 1 / 2 * real 10 * pi) \<le> 1" by (rule cos_le_one)
  then have "(cos (t + 1 / 2 * real 10 * pi) / fact 10) * (787 / 500) ^ 10
      \<le> (1 / fact 10) * (787 / 500 :: real) ^ 10"
    by (intro mult_right_mono divide_right_mono) simp_all
  with t have "cos (787 / 500 :: real) \<le> (\<Sum>m<10. cos_coeff m * (787 / 500) ^ m)
      + (1 / fact 10) * (787 / 500) ^ 10"
    by linarith
  also have "\<dots> < 0"
    unfolding cos_sum10 by (simp add: fact_numeral power_divide)
  finally show ?thesis .
qed

lemma pi_less_3148: "pi < 3.148"
proof (rule ccontr)
  assume "\<not> pi < 3.148"
  then have "787 / 500 \<le> pi / 2" by simp
  then have "cos (pi / 2) \<le> cos (787 / 500 :: real)"
    by (intro cos_monotone_0_pi_le) simp_all
  with cos_1574_neg show False by simp
qed

lemma sample_126: "4 * pi < sample 126"
proof -
  have "\<bar>sample 126 - real 126 / 10\<bar> \<le> 1 / 10 ^ 12"
    by (rule sample_near_tenth) simp
  then have "real 126 / 10 - 1 / 10 ^ 12 \<le> sample 126" by linarith
  moreover have "(12.599::real) < real 126 / 10 - 1 / 10 ^ 12" by simp
  moreover have "4 * pi < 12.599" using pi_less_3148 by simp
  ultimately show ?thesis by linarith
qed

lemma sample_79: "2.5 * pi < sample 79"
proof -
  have "\<bar>sample 79 - real 79 / 10\<bar> \<le> 1 / 10 ^ 12"
    by (rule sample_near_tenth) simp
  then have "real 79 / 10 - 1 / 10 ^ 12 \<le> sample 79" by linarith
  moreover have "(7.899::real) < real 79 / 10 - 1 / 10 ^ 12" by simp
  moreover have "2.5 * pi < 7.899" using pi_less_3148 by simp
  ultimately show ?thesis by linarith
qed

text \<open>
  The number of passes is the index of the first value of the loop variable beyond the
  limit, and the loop is the fold of its body over the values before it.
\<close>

lemma passes_exist:
  assumes "\<not> sample B \<le> lmt"
  shows "\<exists>N. N \<le> B \<and> \<not> sample N \<le> lmt \<and> (\<forall>j<N. sample j \<le> lmt)"
proof (intro exI conjI allI impI)
  let ?N = "LEAST n. \<not> sample n \<le> lmt"
  from assms show "?N \<le> B" by (rule Least_le)
  from assms show "\<not> sample ?N \<le> lmt" by (rule LeastI)
  fix j assume "j < ?N"
  from not_less_Least [OF this] show "sample j \<le> lmt" by simp
qed

lemma wave_loop_run:
  assumes "\<forall>j<n. sample j \<le> lmt" and "\<not> sample n \<le> lmt"
  shows "k \<le> n \<Longrightarrow> wave_loop f lmt (sample k) d
         = Some (foldl (\<lambda>d' j. wave_body f (sample j) d') d [k..<n])"
proof (induction "n - k" arbitrary: k d)
  case 0
  then have keq: "k = n" by simp
  have "wave_loop f lmt (sample n) d = Some d"
    by (subst wave_loop.simps) (simp only: assms(2) if_False)
  with keq show ?case by simp
next
  case (Suc m)
  then have k: "k < n" by simp
  with assms(1) have le: "sample k \<le> lmt" by blast
  from Suc.hyps(2) k have "m = n - Suc k" by simp
  moreover from k have "Suc k \<le> n" by simp
  ultimately have IH: "wave_loop f lmt (sample (Suc k)) (wave_body f (sample k) d)
      = Some (foldl (\<lambda>d' j. wave_body f (sample j) d') (wave_body f (sample k) d) [Suc k..<n])"
    by (rule Suc.hyps(1))
  from k have upt: "[k..<n] = k # [Suc k..<n]"
    by (rule upt_conv_Cons)
  have "wave_loop f lmt (sample k) d
      = wave_loop f lmt (fadd (sample k) step) (wave_body f (sample k) d)"
    by (subst wave_loop.simps) (simp only: le if_True)
  with IH show ?case
    by (simp only: sample.simps upt foldl_Cons)
qed

lemma pathData_run:
  "\<exists>N. N \<le> 126 \<and> \<not> sample N \<le> min angle (4 * pi)
     \<and> (\<forall>j<N. sample j \<le> min angle (4 * pi))
     \<and> pathData angle f
         = Some (foldl (\<lambda>d' j. wave_body f (sample j) d') [M 0 (- sin 0 * yScale)] [0..<N])"
proof -
  have "\<not> sample 126 \<le> min angle (4 * pi)"
    using sample_126 by simp
  from passes_exist [OF this]
  obtain N where N: "N \<le> 126" "\<not> sample N \<le> min angle (4 * pi)"
    "\<forall>j<N. sample j \<le> min angle (4 * pi)"
    by blast
  have "0 \<le> N" by simp
  from wave_loop_run [OF N(3) N(2) this, of f "[M 0 (- sin 0 * yScale)]"]
  have "pathData angle f
         = Some (foldl (\<lambda>d' j. wave_body f (sample j) d') [M 0 (- sin 0 * yScale)] [0..<N])"
    by (simp add: pathData_def Let_def maxTheta_def sample.simps(1))
  with N show ?thesis by blast
qed

lemma wave_body_zero: "wave_body f 0 d = [M 0 (- (if f = COS then 1 else 0) * yScale)]"
  by (cases f) (simp_all add: wave_body_def Let_def)

lemma length_wave_body: "t \<noteq> 0 \<Longrightarrow> length (wave_body f t d) = Suc (length d)"
  by (cases f) (simp_all add: wave_body_def Let_def)

lemma length_foldl_wave_body:
  "\<forall>j \<in> set js. sample j \<noteq> 0 \<Longrightarrow>
   length (foldl (\<lambda>d' j. wave_body f (sample j) d') d js) = length d + length js"
  by (induction js arbitrary: d) (simp_all add: length_wave_body)

lemma upt_samples_nonzero: "N \<le> 150 \<Longrightarrow> \<forall>j \<in> set [Suc 0..<N]. sample j \<noteq> 0"
proof
  fix j assume "N \<le> 150" "j \<in> set [Suc 0..<N]"
  then have "0 < j" "j \<le> 150" by simp_all
  from sample_pos [OF this] show "sample j \<noteq> 0" by simp
qed

lemma length_wave_run:
  assumes "N \<le> 150"
  shows "length (foldl (\<lambda>d' j. wave_body f (sample j) d') [M 0 (- sin 0 * yScale)] [0..<N])
         = (if N = 0 then 1 else N)"
proof (cases "N = 0")
  case True
  then show ?thesis by simp
next
  case False
  then have "[0..<N] = 0 # [Suc 0..<N]"
    by (intro upt_conv_Cons) simp
  then have "foldl (\<lambda>d' j. wave_body f (sample j) d') [M 0 (- sin 0 * yScale)] [0..<N]
      = foldl (\<lambda>d' j. wave_body f (sample j) d')
          (wave_body f (sample 0) [M 0 (- sin 0 * yScale)]) [Suc 0..<N]"
    by (simp only: foldl_Cons)
  moreover have "length (foldl (\<lambda>d' j. wave_body f (sample j) d')
          (wave_body f (sample 0) [M 0 (- sin 0 * yScale)]) [Suc 0..<N])
      = length (wave_body f (sample 0) [M 0 (- sin 0 * yScale)]) + length [Suc 0..<N]"
    by (rule length_foldl_wave_body [OF upt_samples_nonzero [OF assms]])
  moreover have "length (wave_body f (sample 0) [M 0 (- sin 0 * yScale)]) = 1"
    by (simp add: sample.simps(1) wave_body_zero)
  moreover have "length [Suc 0..<N] = N - 1"
    by simp
  ultimately show ?thesis using False by simp
qed

subsection \<open>C1: the active path of the wave graph\<close>

lemma pathData_passes:
  assumes "\<forall>j<n. sample j \<le> min angle (4 * pi)" and "\<not> sample n \<le> min angle (4 * pi)"
  shows "pathData angle f
         = Some (foldl (\<lambda>d' j. wave_body f (sample j) d') [M 0 (- sin 0 * yScale)] [0..<n])"
proof -
  have "0 \<le> n" by simp
  from wave_loop_run [OF assms this, of f "[M 0 (- sin 0 * yScale)]"]
  show ?thesis
    by (simp add: pathData_def Let_def maxTheta_def sample.simps(1))
qed

lemma wave_body_sincos:
  "f \<noteq> TAN \<Longrightarrow> wave_body f t d =
     (if t = 0 then [M (t * pixelsPerRadian) (- (if f = SIN then sin t else cos t) * yScale)]
      else d @ [L (t * pixelsPerRadian) (- (if f = SIN then sin t else cos t) * yScale)])"
  by (cases f) (simp_all add: wave_body_def Let_def)

lemma foldl_wave_body_sincos:
  "f \<noteq> TAN \<Longrightarrow> \<forall>j \<in> set js. sample j \<noteq> 0 \<Longrightarrow>
   foldl (\<lambda>d' j. wave_body f (sample j) d') d js
   = d @ map (\<lambda>j. L (sample j * pixelsPerRadian)
                   (- (if f = SIN then sin (sample j) else cos (sample j)) * yScale)) js"
  by (induction js arbitrary: d) (auto simp: wave_body_sincos)

text \<open>
  Claim C1, as amended. For every angle \<open>\<ge> 0\<close> and selected function \<open>SIN\<close> or \<open>COS\<close>, the
  active wave path is the polyline over the values that the loop variable takes:
  \<open>sample 0 = 0\<close> and \<open>sample (k + 1)\<close> is the binary64 sum of \<open>sample k\<close> and \<open>0.1\<close>, taken as
  long as they do not exceed \<open>min(angle, 4\<pi>)\<close>. There are \<open>N\<close> of them, \<open>1 \<le> N \<le> 126\<close>; they
  are the values \<open>sample k\<close> with \<open>k < N\<close>, each within \<open>10 ^ -12\<close> of \<open>k / 10\<close> but in general
  not equal to it. The path moves to the point of \<open>sample 0\<close> and draws a line to the point
  of every later one, in order, where the point of \<open>t\<close> is
  \<open>(t * pixelsPerRadian, -f(t) * 120)\<close> with \<open>pixelsPerRadian = (400 - 40) / (4\<pi>)\<close>.
\<close>

theorem pathData_polyline:
  assumes "0 \<le> angle" and "f = SIN \<or> f = COS"
  shows "\<exists>N. 0 < N \<and> N \<le> 126
     \<and> (\<forall>k\<le>126. (sample k \<le> min angle (4 * pi)) = (k < N))
     \<and> (\<forall>k\<le>126. \<bar>sample k - real k / 10\<bar> \<le> 1 / 10 ^ 12)
     \<and> pathData angle f
         = Some (M (sample 0 * ((400 - 40) / (4 * pi)))
                   (- (if f = SIN then sin (sample 0) else cos (sample 0)) * 120)
                 # map (\<lambda>k. L (sample k * ((400 - 40) / (4 * pi)))
                              (- (if f = SIN then sin (sample k) else cos (sample k)) * 120))
                     [1..<N])"
proof -
  from assms(2) have f: "f \<noteq> TAN" by auto
  from pathData_run [of angle f]
  obtain N where N: "N \<le> 126" "\<not> sample N \<le> min angle (4 * pi)"
    "\<forall>j<N. sample j \<le> min angle (4 * pi)"
    and run: "pathData angle f
         = Some (foldl (\<lambda>d' j. wave_body f (sample j) d') [M 0 (- sin 0 * yScale)] [0..<N])"
    by blast
  from assms(1) have "sample 0 \<le> min angle (4 * pi)"
    by (simp add: sample.simps(1))
  with N(2) have pos: "0 < N" by (cases "N = 0") simp_all
  have iff: "(sample k \<le> min angle (4 * pi)) = (k < N)" if "k \<le> 126" for k
  proof (cases "k < N")
    case True
    with N(3) show ?thesis by simp
  next
    case False
    then have "N \<le> k" by simp
    moreover from that have "k \<le> 150" by simp
    ultimately have "sample N \<le> sample k" by (rule sample_mono)
    with N(2) have "\<not> sample k \<le> min angle (4 * pi)" by linarith
    with False show ?thesis by blast
  qed
  from N(1) have N150: "N \<le> 150" by simp
  from pos have upt: "[0..<N] = 0 # [Suc 0..<N]"
    by (intro upt_conv_Cons)
  have "foldl (\<lambda>d' j. wave_body f (sample j) d') [M 0 (- sin 0 * yScale)] [0..<N]
      = foldl (\<lambda>d' j. wave_body f (sample j) d')
          (wave_body f (sample 0) [M 0 (- sin 0 * yScale)]) [Suc 0..<N]"
    by (simp only: upt foldl_Cons)
  also have "\<dots> = wave_body f (sample 0) [M 0 (- sin 0 * yScale)]
      @ map (\<lambda>j. L (sample j * pixelsPerRadian)
                   (- (if f = SIN then sin (sample j) else cos (sample j)) * yScale))
          [Suc 0..<N]"
    by (rule foldl_wave_body_sincos [OF f upt_samples_nonzero [OF N150]])
  also have "\<dots> = M (sample 0 * ((400 - 40) / (4 * pi)))
                   (- (if f = SIN then sin (sample 0) else cos (sample 0)) * 120)
                 # map (\<lambda>k. L (sample k * ((400 - 40) / (4 * pi)))
                              (- (if f = SIN then sin (sample k) else cos (sample k)) * 120))
                     [1..<N]"
    by (simp add: wave_body_sincos [OF f] sample.simps(1) pixelsPerRadian_def width_def
        maxTheta_def yScale_def)
  finally have path: "pathData angle f
         = Some (M (sample 0 * ((400 - 40) / (4 * pi)))
                   (- (if f = SIN then sin (sample 0) else cos (sample 0)) * 120)
                 # map (\<lambda>k. L (sample k * ((400 - 40) / (4 * pi)))
                              (- (if f = SIN then sin (sample k) else cos (sample k)) * 120))
                     [1..<N])"
    by (simp only: run)
  from pos N(1) iff sample_near_tenth path show ?thesis by blast
qed

lemma angle_015: "min (3 / 20) (4 * pi) = 3 / 20"
  using pi_ge_two by simp

theorem pathData_polyline_witness:
  "(0::real) \<le> 3 / 20 \<and> (SIN = SIN \<or> SIN = COS)
   \<and> pathData (3 / 20) SIN
       = Some [M 0 0, L (step * (360 / (4 * pi))) (- sin step * 120)]"
proof -
  have h: "(0::real) \<le> 3 / 20" "SIN = SIN \<or> SIN = COS" by simp_all
  from pathData_polyline [OF h] obtain N where N: "N \<le> 126"
    "\<forall>k\<le>126. (sample k \<le> min (3 / 20) (4 * pi)) = (k < N)"
    and path: "pathData (3 / 20) SIN
         = Some (M (sample 0 * ((400 - 40) / (4 * pi)))
                   (- (if SIN = SIN then sin (sample 0) else cos (sample 0)) * 120)
                 # map (\<lambda>k. L (sample k * ((400 - 40) / (4 * pi)))
                              (- (if SIN = SIN then sin (sample k) else cos (sample k)) * 120))
                     [1..<N])"
    by blast
  from N(2) have "(sample 1 \<le> min (3 / 20) (4 * pi)) = (1 < N)"
    "(sample 2 \<le> min (3 / 20) (4 * pi)) = (2 < N)"
    by simp_all
  then have "1 < N" "\<not> 2 < N"
    by (simp_all add: angle_015 sample_1 sample_2)
  then have "N = 2" by simp
  moreover have "[Suc 0..<2] = [Suc 0]" by (simp add: upt_conv_Cons)
  ultimately show ?thesis using path
    by (simp add: sample.simps(1) sample_1 step_def)
qed

lemma angle_2: "min 2 (4 * pi) = 2"
  using pi_ge_two by simp

lemma passes_at_2: "(\<forall>j<20. sample j \<le> min 2 (4 * pi)) \<and> \<not> sample 20 \<le> min 2 (4 * pi)"
proof -
  have "sample j \<le> 2" if "j < 20" for j
  proof -
    from that have "j \<le> 19" "(19::nat) \<le> 150" by simp_all
    then have "sample j \<le> sample 19" by (rule sample_mono)
    also have "\<dots> \<le> 2" by (simp add: sample_19)
    finally show ?thesis .
  qed
  moreover have "\<not> sample 20 \<le> 2" by (simp add: sample_20)
  ultimately show ?thesis by (simp add: angle_2)
qed

text \<open>
  Claim C1 as it was stated, with the samples \<open>0, 0.1, 0.2, \<dots>\<close> not exceeding the limit,
  fails at the angle 2: the sample \<open>20 / 10\<close> does not exceed \<open>min(2, 4\<pi>)\<close>, so the claim
  gives the path 21 vertices, but the twentieth addition yields \<open>2.0000000000000004\<close> and
  the path has 20.
\<close>

theorem pathData_at_2_counterexample:
  "map_option length (pathData 2 SIN) = Some 20 \<and> real 20 / 10 \<le> min 2 (4 * pi)"
proof -
  from passes_at_2 have "pathData 2 SIN
      = Some (foldl (\<lambda>d' j. wave_body SIN (sample j) d') [M 0 (- sin 0 * yScale)] [0..<20])"
    by (intro pathData_passes) simp_all
  moreover have "length (foldl (\<lambda>d' j. wave_body SIN (sample j) d') [M 0 (- sin 0 * yScale)] [0..<20])
      = (if (20::nat) = 0 then 1 else 20)"
    by (rule length_wave_run) simp
  ultimately show ?thesis by (simp add: angle_2)
qed

subsection \<open>C6: the sampling loops are bounded\<close>

lemma resolution_step: "resolution = step"
  by (simp add: resolution_def step_def)

lemma graph_body_in_range:
  assumes "0 \<le> t" and "t \<le> graph_range"
  shows "graph_body angle func scale invertY t d \<noteq> None"
proof -
  have pos: "0 < graph_range" by (simp add: graph_range_def)
  from assms(2) pos have "t * (graphWidth / graph_range) \<le> graph_range * (graphWidth / graph_range)"
    by (intro mult_right_mono) (simp_all add: graphWidth_def)
  also from pos have "\<dots> = graphWidth" by simp
  finally have "t * pixelsPerRad \<le> graphWidth" by (simp only: pixelsPerRad_def)
  then have "\<not> graphXStart + graphWidth - t * pixelsPerRad < graphXStart" by simp
  then show ?thesis by (simp add: graph_body_def Let_def)
qed

lemma graph_loop_run:
  assumes "\<forall>j<n. sample j \<le> graph_range" and "\<not> sample n \<le> graph_range" and "n \<le> 150"
  shows "k \<le> n \<Longrightarrow> graph_loop angle func scale invertY (sample k) d
         = Some (foldl (\<lambda>d' j. case graph_body angle func scale invertY (sample j) d' of
                                  None \<Rightarrow> d' | Some d'' \<Rightarrow> d'') d [k..<n])"
proof (induction "n - k" arbitrary: k d)
  case 0
  then have keq: "k = n" by simp
  have "graph_loop angle func scale invertY (sample n) d = Some d"
    by (subst graph_loop.simps) (simp only: assms(2) if_False)
  with keq show ?case by simp
next
  case (Suc m)
  then have k: "k < n" by simp
  with assms(1) have le: "sample k \<le> graph_range" by blast
  from k assms(3) have "k < 150" by simp
  then have "0 \<le> sample k" by (rule sample_step(2))
  from graph_body_in_range [OF this le]
  obtain d1 where d1: "graph_body angle func scale invertY (sample k) d = Some d1"
    by blast
  from Suc.hyps(2) k have "m = n - Suc k" by simp
  moreover from k have "Suc k \<le> n" by simp
  ultimately have IH: "graph_loop angle func scale invertY (sample (Suc k)) d1
      = Some (foldl (\<lambda>d' j. case graph_body angle func scale invertY (sample j) d' of
                                  None \<Rightarrow> d' | Some d'' \<Rightarrow> d'') d1 [Suc k..<n])"
    by (rule Suc.hyps(1))
  from k have upt: "[k..<n] = k # [Suc k..<n]"
    by (rule upt_conv_Cons)
  have "graph_loop angle func scale invertY (sample k) d
      = graph_loop angle func scale invertY (fadd (sample k) step) d1"
    by (subst graph_loop.simps) (simp only: le if_True d1 option.case resolution_step)
  with IH show ?case
    by (simp only: sample.simps upt foldl_Cons d1 option.case)
qed

lemma length_graph_step:
  assumes "graph_body angle func scale invertY t d \<noteq> None"
  shows "length (case graph_body angle func scale invertY t d of None \<Rightarrow> d | Some d' \<Rightarrow> d')
         = (if t = 0 then 1 else Suc (length d))"
  using assms by (simp add: graph_body_def Let_def split: if_splits)

lemma length_foldl_graph_step:
  assumes "\<forall>j \<in> set js. 0 < sample j \<and> sample j \<le> graph_range"
  shows "length (foldl (\<lambda>d' j. case graph_body angle func scale invertY (sample j) d' of
                            None \<Rightarrow> d' | Some d'' \<Rightarrow> d'') d js)
         = length d + length js"
  using assms
proof (induction js arbitrary: d)
  case Nil
  show ?case by simp
next
  case (Cons j js)
  then have j: "0 < sample j" "sample j \<le> graph_range" by simp_all
  then have "0 \<le> sample j" by simp
  from graph_body_in_range [OF this j(2)]
  have "length (case graph_body angle func scale invertY (sample j) d of
                  None \<Rightarrow> d | Some d' \<Rightarrow> d') = Suc (length d)"
    using j(1) by (simp add: length_graph_step)
  with Cons show ?case by simp
qed

lemma generateGraphPath_run:
  "\<exists>N. 0 < N \<and> N \<le> 79
     \<and> generateGraphPath angle func scale invertY
         = Some (foldl (\<lambda>d' j. case graph_body angle func scale invertY (sample j) d' of
                                  None \<Rightarrow> d' | Some d'' \<Rightarrow> d'') [] [0..<N])
     \<and> length (foldl (\<lambda>d' j. case graph_body angle func scale invertY (sample j) d' of
                                  None \<Rightarrow> d' | Some d'' \<Rightarrow> d'') [] [0..<N]) = N"
proof -
  let ?step = "\<lambda>d' j. case graph_body angle func scale invertY (sample j) d' of
                                  None \<Rightarrow> d' | Some d'' \<Rightarrow> d''"
  have "\<not> sample 79 \<le> graph_range"
    using sample_79 by (simp add: graph_range_def)
  from passes_exist [OF this]
  obtain N where N: "N \<le> 79" "\<not> sample N \<le> graph_range" "\<forall>j<N. sample j \<le> graph_range"
    by blast
  have range0: "0 \<le> graph_range" by (simp add: graph_range_def)
  with N(2) have pos: "0 < N" by (cases "N = 0") (simp_all add: sample.simps(1))
  from N(1) have N150: "N \<le> 150" by simp
  have "0 \<le> N" by simp
  from graph_loop_run [OF N(3) N(2) N150 this, of angle func scale invertY "[]"]
  have run: "generateGraphPath angle func scale invertY = Some (foldl ?step [] [0..<N])"
    by (simp add: generateGraphPath_def sample.simps(1))
  from pos have upt: "[0..<N] = 0 # [Suc 0..<N]"
    by (intro upt_conv_Cons)
  have first: "length (?step [] 0) = 1"
    using graph_body_in_range [of "sample 0" angle func scale invertY "[]"] range0
      length_graph_step [of angle func scale invertY "sample 0" "[]"]
    by (simp add: sample.simps(1))
  have "\<forall>j \<in> set [Suc 0..<N]. 0 < sample j \<and> sample j \<le> graph_range"
  proof
    fix j assume "j \<in> set [Suc 0..<N]"
    then have j: "0 < j" "j < N" by simp_all
    with N150 have "j \<le> 150" by simp
    with j(1) have "0 < sample j" by (rule sample_pos)
    moreover from N(3) j(2) have "sample j \<le> graph_range" by blast
    ultimately show "0 < sample j \<and> sample j \<le> graph_range" ..
  qed
  then have "length (foldl ?step (?step [] 0) [Suc 0..<N])
      = length (?step [] 0) + length [Suc 0..<N]"
    by (rule length_foldl_graph_step)
  moreover have "length [Suc 0..<N] = N - 1" by simp
  ultimately have "length (foldl ?step [] [0..<N]) = N"
    using pos first by (simp only: upt foldl_Cons)
  with pos N(1) run show ?thesis by blast
qed

text \<open>
  Claim C6. The two sampling loops end after a bounded number of passes, whatever the
  angle. The loop of the wave graph runs \<open>t\<close> from 0, adding \<open>0.1\<close> in binary64, while
  \<open>t \<le> min(angle, 4\<pi>)\<close>: it returns, and what it returns is the fold of its body over
  the first \<open>N\<close> values of the loop variable, for some \<open>N \<le> 126\<close>. The loop of the physics
  graphs runs \<open>t\<close> in the same way while \<open>t \<le> 2.5\<pi>\<close>: it returns after some \<open>N \<le> 79\<close> passes,
  none of which takes the \<open>break\<close>. The paths have at most 126 and 79 commands.
\<close>

theorem sampling_loops_bounded:
  "(\<exists>N. N \<le> 126
      \<and> pathData angle f
          = Some (foldl (\<lambda>d k. wave_body f (sample k) d) [M 0 (- sin 0 * yScale)] [0..<N]))
   \<and> (\<exists>d. pathData angle f = Some d \<and> length d \<le> 126)
   \<and> (\<exists>N. N \<le> 79
      \<and> generateGraphPath angle func scale invertY
          = Some (foldl (\<lambda>d k. case graph_body angle func scale invertY (sample k) d of
                                 None \<Rightarrow> d | Some d' \<Rightarrow> d') [] [0..<N]))
   \<and> (\<exists>d. generateGraphPath angle func scale invertY = Some d \<and> length d \<le> 79)"
proof -
  from pathData_run [of angle f]
  obtain N where N: "N \<le> 126" and run: "pathData angle f
      = Some (foldl (\<lambda>d k. wave_body f (sample k) d) [M 0 (- sin 0 * yScale)] [0..<N])"
    by blast
  from N have "N \<le> 150" by simp
  from length_wave_run [OF this, of f] N
  have "length (foldl (\<lambda>d k. wave_body f (sample k) d) [M 0 (- sin 0 * yScale)] [0..<N]) \<le> 126"
    by (simp split: if_splits)
  with run have w2: "\<exists>d. pathData angle f = Some d \<and> length d \<le> 126" by blast
  from N run have w1: "\<exists>N. N \<le> 126
      \<and> pathData angle f
          = Some (foldl (\<lambda>d k. wave_body f (sample k) d) [M 0 (- sin 0 * yScale)] [0..<N])"
    by blast
  from generateGraphPath_run [of angle func scale invertY]
  obtain G where G: "G \<le> 79" and grun: "generateGraphPath angle func scale invertY
      = Some (foldl (\<lambda>d k. case graph_body angle func scale invertY (sample k) d of
                             None \<Rightarrow> d | Some d' \<Rightarrow> d') [] [0..<G])"
    and glen: "length (foldl (\<lambda>d k. case graph_body angle func scale invertY (sample k) d of
                             None \<Rightarrow> d | Some d' \<Rightarrow> d') [] [0..<G]) = G"
    by blast
  from G grun have g1: "\<exists>N. N \<le> 79
      \<and> generateGraphPath angle func scale invertY
          = Some (foldl (\<lambda>d k. case graph_body angle func scale invertY (sample k) d of
                                 None \<Rightarrow> d | Some d' \<Rightarrow> d') [] [0..<N])"
    by blast
  from G grun glen have g2: "\<exists>d. generateGraphPath angle func scale invertY = Some d \<and> length d \<le> 79"
    by simp
  from w1 w2 g1 g2 show ?thesis by blast
qed

subsection \<open>C10: the guards around the asymptotes of the tangent\<close>

lemma wave_body_TAN_bound:
  assumes "\<forall>x y. L x y \<in> set d \<or> M x y \<in> set d \<longrightarrow> \<bar>y\<bar> \<le> 3 * 120"
  shows "\<forall>x y. L x y \<in> set (wave_body TAN t d) \<or> M x y \<in> set (wave_body TAN t d)
           \<longrightarrow> \<bar>y\<bar> \<le> 3 * 120"
  using assms by (auto simp: wave_body_def Let_def yScale_def abs_mult)

lemma foldl_wave_body_TAN_bound:
  "\<forall>x y. L x y \<in> set d \<or> M x y \<in> set d \<longrightarrow> \<bar>y\<bar> \<le> 3 * 120 \<Longrightarrow>
   \<forall>x y. L x y \<in> set (foldl (\<lambda>d' j. wave_body TAN (sample j) d') d js)
         \<or> M x y \<in> set (foldl (\<lambda>d' j. wave_body TAN (sample j) d') d js)
         \<longrightarrow> \<bar>y\<bar> \<le> 3 * 120"
proof (induction js arbitrary: d)
  case Nil
  then show ?case by simp
next
  case (Cons j js)
  from Cons.prems have "\<forall>x y. L x y \<in> set (wave_body TAN (sample j) d)
      \<or> M x y \<in> set (wave_body TAN (sample j) d) \<longrightarrow> \<bar>y\<bar> \<le> 3 * 120"
    by (rule wave_body_TAN_bound)
  then show ?case
    unfolding foldl_Cons by (rule Cons.IH)
qed

lemma pathData_TAN_bound:
  "\<exists>p. pathData angle TAN = Some p
       \<and> (\<forall>x y. L x y \<in> set p \<or> M x y \<in> set p \<longrightarrow> \<bar>y\<bar> \<le> 3 * 120)"
proof -
  from pathData_run [of angle TAN]
  obtain N where run: "pathData angle TAN
      = Some (foldl (\<lambda>d' j. wave_body TAN (sample j) d') [M 0 (- sin 0 * yScale)] [0..<N])"
    by blast
  have "\<forall>x y. L x y \<in> set [M 0 (- sin 0 * yScale)] \<or> M x y \<in> set [M 0 (- sin 0 * yScale)]
          \<longrightarrow> \<bar>y\<bar> \<le> 3 * 120"
    by simp
  from foldl_wave_body_TAN_bound [OF this, of "[0..<N]"] run show ?thesis by blast
qed

lemma currentY_TAN_clamp: "currentY angle TAN = max (- 200) (min 200 (- tan angle * 120))"
  by (simp add: currentY_def currentValue_def Let_def yScale_def)

text \<open>
  Claim C10. The guards around the asymptotes of the tangent. In the unit circle the
  tangent construction is drawn exactly when \<open>TAN\<close> is selected and \<open>\<bar>cos(angle)\<bar> > 0.001\<close>;
  its point \<open>(120, -tan(angle) * 120)\<close> is computed under the same guard and stays
  \<open>(0, 0)\<close> otherwise. In the wave graph a sample of the \<open>TAN\<close> path with \<open>\<bar>tan(t)\<bar> > 3\<close> adds
  a move (a gap) at height \<open>\<plusminus>3 * 120\<close> and no line; the loop returns a path, and every
  vertex of it, the end of a line or the target of a move, has \<open>\<bar>y\<bar> \<le> 3 * 120\<close>. The
  height of the marker of the current value is \<open>-tan(b) * 120\<close> clamped to
  \<open>[-200, 200]\<close>: that value when it lies in the interval, and the nearer end of the
  interval otherwise.
\<close>

theorem tan_asymptote_guards:
  "tanRendered angle f = (f = TAN \<and> \<bar>cos angle\<bar> > 0.001)
   \<and> (tanRendered angle f \<longrightarrow> tanPoint angle f = (120, - tan angle * 120))
   \<and> (\<not> tanRendered angle f \<longrightarrow> tanPoint angle f = (0, 0))
   \<and> (\<bar>tan t\<bar> > 3 \<longrightarrow>
        wave_body TAN t d = d @ [M (t * pixelsPerRadian) (if tan t > 0 then - 3 * 120 else 3 * 120)])
   \<and> (\<exists>p. pathData a TAN = Some p
          \<and> (\<forall>x y. L x y \<in> set p \<or> M x y \<in> set p \<longrightarrow> \<bar>y\<bar> \<le> 3 * 120))
   \<and> currentY b TAN = max (- 200) (min 200 (- tan b * 120))
   \<and> - 200 \<le> currentY b TAN \<and> currentY b TAN \<le> 200"
proof -
  have r: "tanRendered angle f = (f = TAN \<and> \<bar>cos angle\<bar> > 0.001)"
    by (simp add: tanRendered_def isTanDefined_def)
  have y: "tanRendered angle f \<longrightarrow> tanPoint angle f = (120, - tan angle * 120)"
    by (simp add: tanRendered_def tanPoint_def CIRCLE_RADIUS_def)
  have n: "\<not> tanRendered angle f \<longrightarrow> tanPoint angle f = (0, 0)"
    by (simp add: tanRendered_def tanPoint_def)
  have g: "\<bar>tan t\<bar> > 3 \<longrightarrow>
        wave_body TAN t d = d @ [M (t * pixelsPerRadian) (if tan t > 0 then - 3 * 120 else 3 * 120)]"
    by (simp add: wave_body_def Let_def yScale_def)
  note p = pathData_TAN_bound [of a]
  note c = currentY_TAN_clamp [of b]
  have m: "- 200 \<le> currentY b TAN \<and> currentY b TAN \<le> 200"
    unfolding c by simp
  from r y n g p c m show ?thesis by blast
qed

lemma tan_small:
  fixes x :: real
  assumes "0 < x" and "x < 1 / 2"
  shows "0 < tan x" and "tan x < 1"
proof -
  from assms have x: "x < pi / 4" using pi_ge_two by simp
  from assms have "x < pi / 2" using pi_ge_two by simp
  with assms(1) show "0 < tan x" by (rule tan_gt_zero)
  have "- (pi / 2) < x" using assms(1) pi_ge_two by simp
  from tan_monotone [OF this x] have "tan x < tan (pi / 4)" by simp
  then show "tan x < 1" by (simp only: tan_45)
qed

lemma cos_small:
  fixes x :: real
  assumes "0 \<le> x" and "x < 1 / 2"
  shows "1 / 2 < cos x"
proof -
  from assms have "x < pi / 3" using pi_ge_two by simp
  with assms(1) have "cos (pi / 3) < cos x"
    by (intro cos_monotone_0_pi) simp_all
  then show ?thesis by (simp only: cos_60)
qed

lemma pathData_015_TAN:
  "pathData (3 / 20) TAN = Some [M 0 0, L (step * pixelsPerRadian) (- tan step * 120)]"
proof -
  have "(\<forall>j<2. sample j \<le> min (3 / 20) (4 * pi)) \<and> \<not> sample 2 \<le> min (3 / 20) (4 * pi)"
  proof -
    have "sample j \<le> 3 / 20" if "j < 2" for j
    proof -
      from that have "j = 0 \<or> j = Suc 0" by auto
      then show ?thesis by (auto simp: sample.simps(1) sample_1)
    qed
    moreover have "\<not> sample 2 \<le> 3 / 20" by (simp add: sample_2)
    ultimately show ?thesis by (simp add: angle_015)
  qed
  then have "pathData (3 / 20) TAN
      = Some (foldl (\<lambda>d' j. wave_body TAN (sample j) d') [M 0 (- sin 0 * yScale)] [0..<2])"
    by (intro pathData_passes) simp_all
  moreover have "[0..<2] = [0, Suc 0]" by (simp add: upt_conv_Cons)
  moreover have "0 < step" "step < 1 / 2" by (simp_all add: step_def)
  from tan_small [OF this] have "\<not> \<bar>tan step\<bar> > 3" "step \<noteq> 0" by (simp_all add: step_def)
  ultimately show ?thesis
    by (simp add: sample.simps(1) sample_1 [folded step_def] wave_body_def Let_def yScale_def)
qed

theorem tan_asymptote_guards_witness:
  "tanRendered (3 / 20) TAN
   \<and> tanPoint (3 / 20) TAN = (120, - tan (3 / 20) * 120)
   \<and> \<not> tanRendered (3 / 20) SIN \<and> tanPoint (3 / 20) SIN = (0, 0)
   \<and> \<bar>tan (arctan 4)\<bar> > 3
   \<and> wave_body TAN (arctan 4) [M 0 0] = [M 0 0, M (arctan 4 * pixelsPerRadian) (- 360)]
   \<and> pathData (3 / 20) TAN = Some [M 0 0, L (step * pixelsPerRadian) (- tan step * 120)]
   \<and> \<bar>- tan step * 120\<bar> \<le> 3 * 120
   \<and> currentY (arctan 4) TAN = - 200
   \<and> currentY (arctan (- 4)) TAN = 200
   \<and> currentY (3 / 20) TAN = - tan (3 / 20) * 120"
proof -
  have c: "\<bar>cos (3 / 20 :: real)\<bar> > 0.001"
    using cos_small [of "3 / 20"] by simp
  have ts: "0 < tan (3 / 20 :: real)" "tan (3 / 20 :: real) < 1"
    using tan_small [of "3 / 20"] by simp_all
  note A = tan_asymptote_guards [of "3 / 20" TAN "arctan 4" "[M 0 0]" "3 / 20" "arctan 4"]
  note B = tan_asymptote_guards [of "3 / 20" SIN "arctan 4" "[M 0 0]" "3 / 20" "arctan (- 4)"]
  note D = tan_asymptote_guards [of "3 / 20" TAN "arctan 4" "[M 0 0]" "3 / 20" "3 / 20"]
  from A pathData_015_TAN have bound: "\<bar>- tan step * 120\<bar> \<le> 3 * 120"
    by auto
  from A B D c ts bound pathData_015_TAN show ?thesis
    by (simp add: tan_arctan)
qed

end
